theory Spec2Isabelle
  imports Main "HOL-Library.AList"
begin

text \<open>
  A shallow embedding of \<^verbatim>\<open>src/component.js\<close>: the element bindings with their node
  caches, the component with \<^verbatim>\<open>define\<close> and the delegation loop of \<^verbatim>\<open>handler\<close>, and
  the Hub with its registry and its broadcast. The definitions come first, then the
  statements about them, claim by claim.
\<close>

section \<open>The document\<close>

text \<open>
  \<^verbatim>\<open>component.js\<close> works on the nodes of a browser document. A node is an object
  compared by reference; here it is a handle. The document is what the library reads
  of it: the node objects that exist, in document order (\<open>dnodes\<close>), each node's
  \<^verbatim>\<open>parentNode\<close> (absent for a detached node or the root) and the selector test of
  a single node (\<^verbatim>\<open>utils.matches\<close>).
\<close>

type_synonym node = nat

record dom =
  dnodes :: "node list"
  parentNode :: "node \<Rightarrow> node option"
  matches :: "node \<Rightarrow> string \<Rightarrow> bool"

datatype error = TypeError

text \<open>
  \<open>climbs d k n a\<close>: \<open>a\<close> is \<open>n\<close> itself or one of the first \<open>k\<close> ancestors of
  \<open>n\<close>.
\<close>

fun climbs :: "dom \<Rightarrow> nat \<Rightarrow> node \<Rightarrow> node \<Rightarrow> bool" where
  "climbs d 0 n a = (n = a)"
| "climbs d (Suc k) n a =
     (n = a \<or> (case parentNode d n of None \<Rightarrow> False | Some p \<Rightarrow> climbs d k p a))"

text \<open>
  The platform's \<^verbatim>\<open>a.contains(b)\<close>: \<open>b\<close> is \<open>a\<close> or a descendant of \<open>a\<close> (the
  test is inclusive). A chain of ancestors is never longer than the number of node
  objects, which bounds the climb.
\<close>

definition contains :: "dom \<Rightarrow> node \<Rightarrow> node \<Rightarrow> bool" where
  "contains d a b = climbs d (length (dnodes d)) b a"

text \<open>The platform's \<^verbatim>\<open>parent.removeChild(n)\<close>: \<open>n\<close> is detached.\<close>

definition removeChild :: "dom \<Rightarrow> node \<Rightarrow> dom" where
  "removeChild d n = d\<lparr>parentNode := (parentNode d)(n := None)\<rparr>"

text \<open>
  Modelled from the spec: \<^verbatim>\<open>utils.queryAll(selector, scopeNode)\<close> is imported from a
  module that is not among the sources. The spec: an ordered list of nodes, all
  descendants of \<open>scopeNode\<close> matching \<open>selector\<close>.
\<close>

definition queryAll :: "dom \<Rightarrow> string \<Rightarrow> node \<Rightarrow> node list" where
  "queryAll d sel scope =
     filter (\<lambda>n. n \<noteq> scope \<and> contains d scope n \<and> matches d n sel) (dnodes d)"

section \<open>Events and handlers\<close>

text \<open>
  What \<^verbatim>\<open>Component.handler\<close> reads of a native event: its type, its target, its
  related target (absent for most event types), and how many touch points
  \<^verbatim>\<open>ev.touches\<close> holds (none also when the event has no such list). The coordinates of
  the touch points are floating-point numbers and are not part of the embedding.
\<close>

record event =
  etype :: string
  target :: node
  relatedTarget :: "node option"
  etouches :: nat

text \<open>
  The capabilities of the event a handler can use: the inner stop installed by
  \<^verbatim>\<open>Component.handler\<close>, the platform's own \<^verbatim>\<open>stopPropagation\<close>, and
  \<^verbatim>\<open>preventDefault\<close>.
\<close>

datatype call = StopInnerPropagation | StopPropagation | PreventDefault

text \<open>
  A binding's handler is a function of the application. An element holds it under a
  label; what the function does when it is called is given by a table of the
  application's functions (\<open>behaviour\<close>, below the component).
\<close>

type_synonym handler = string

section \<open>Element\<close>

text \<open>
  The object literal passed to \<^verbatim>\<open>define\<close> for one element. A template maps its
  arguments to markup; a startup hook is named by a label.
\<close>

type_synonym template = "string list \<Rightarrow> string"

record element_spec =
  sname :: string
  sselector :: "string option"
  shandlers :: "(string \<times> handler) list"
  stemplate :: "template option"
  sstartup :: "string option"

text \<open>
  The element object after \<^verbatim>\<open>init\<close>. \<open>owner\<close> is the back reference
  \<^verbatim>\<open>this.component\<close>, of which the element's own methods read the container only.
  The actions of an element are not part of the embedding.
\<close>

record binding =
  name :: string
  selector :: string
  className :: "string option"
  nodes :: "node list"
  handlers :: "(string \<times> handler) list"
  template :: "template option"
  startup :: "string option"
  owner :: node

text \<open>\<^verbatim>\<open>resolveNodes()\<close>: lines 61 to 69.\<close>

definition resolveNodes :: "dom \<Rightarrow> binding \<Rightarrow> binding \<times> node list" where
  "resolveNodes d b =
     (let ns = (if name b = ''self'' then [owner b] else queryAll d (selector b) (owner b))
      in (b\<lparr>nodes := ns\<rparr>, ns))"

text \<open>\<^verbatim>\<open>getAll()\<close>: lines 85 to 91.\<close>

definition getAll :: "dom \<Rightarrow> binding \<Rightarrow> binding \<times> node list" where
  "getAll d b =
     (if nodes b = [] \<or> template b \<noteq> None then resolveNodes d b else (b, nodes b))"

text \<open>
  Reading \<^verbatim>\<open>xs[index]\<close> of a JavaScript array at an integer: absent
  (\<^verbatim>\<open>undefined\<close>) outside the array.
\<close>

definition at_index :: "'a list \<Rightarrow> int \<Rightarrow> 'a option" where
  "at_index xs i = (if 0 \<le> i \<and> i < int (length xs) then Some (xs ! nat i) else None)"

text \<open>\<^verbatim>\<open>get(index = 0)\<close>: lines 76 to 78.\<close>

definition Element_get :: "dom \<Rightarrow> binding \<Rightarrow> int \<Rightarrow> binding \<times> node option" where
  "Element_get d b index = (let (b', ns) = getAll d b in (b', at_index ns index))"

text \<open>
  \<^verbatim>\<open>remove(index = 0)\<close>: lines 105 to 110. \<^verbatim>\<open>node.parentNode\<close> raises a TypeError
  on an absent node, and \<^verbatim>\<open>.removeChild\<close> raises one on an absent parent.
\<close>

definition Element_remove :: "dom \<Rightarrow> binding \<Rightarrow> int \<Rightarrow> error + dom \<times> binding" where
  "Element_remove d b index =
     (let (b', found) = Element_get d b index in
      case found of
        None \<Rightarrow> Inl TypeError
      | Some n \<Rightarrow>
          (case parentNode d n of
             None \<Rightarrow> Inl TypeError
           | Some p \<Rightarrow> (let d' = removeChild d n in Inr (d', fst (resolveNodes d' b')))))"

text \<open>
  \<^verbatim>\<open>removeAll()\<close>: lines 114 to 117. The \<^verbatim>\<open>forEach\<close> stops at the first node
  without a parent, with a TypeError.
\<close>

fun removeEach :: "dom \<Rightarrow> node list \<Rightarrow> error + dom" where
  "removeEach d [] = Inr d"
| "removeEach d (n # ns) =
     (case parentNode d n of
        None \<Rightarrow> Inl TypeError
      | Some p \<Rightarrow> removeEach (removeChild d n) ns)"

definition Element_removeAll :: "dom \<Rightarrow> binding \<Rightarrow> error + dom \<times> binding" where
  "Element_removeAll d b =
     (case removeEach d (nodes b) of
        Inl e \<Rightarrow> Inl e
      | Inr d' \<Rightarrow> Inr (d', b\<lparr>nodes := []\<rparr>))"

text \<open>
  \<^verbatim>\<open>render(...args)\<close>: lines 124 to 130. \<open>createNode\<close> stands for
  \<^verbatim>\<open>utils.createNode\<close>, which adds a detached node built from markup to the document.
\<close>

definition render ::
  "(string \<Rightarrow> dom \<Rightarrow> node \<times> dom) \<Rightarrow> dom \<Rightarrow> binding \<Rightarrow> string list \<Rightarrow> node option \<times> dom" where
  "render createNode d b args =
     (case template b of
        None \<Rightarrow> (None, d)
      | Some t \<Rightarrow> (let (n, d') = createNode (t args) d in (Some n, d')))"

text \<open>
  \<^verbatim>\<open>init(component)\<close>: lines 13 to 55, without the actions. An empty selector is
  falsy, so the default replaces it. \<open>tagged cls markup\<close> stands for the markup of
  \<^verbatim>\<open>utils.createNode(markup)\<close> after \<^verbatim>\<open>classList.add(cls)\<close>.
\<close>

definition defaultSelector :: "string \<Rightarrow> string \<Rightarrow> string" where
  "defaultSelector csel nm = (if nm = ''self'' then csel else csel @ ''__'' @ nm)"

definition classNameOf :: "string \<Rightarrow> string option" where
  "classNameOf sel = (case sel of [] \<Rightarrow> None | c # rest \<Rightarrow> if c = CHR ''.'' then Some rest else None)"

definition Element_init ::
  "(string option \<Rightarrow> string \<Rightarrow> string) \<Rightarrow> dom \<Rightarrow> node \<Rightarrow> string \<Rightarrow> element_spec \<Rightarrow> binding" where
  "Element_init tagged d ccontainer cselector s =
     (let sel = (case sselector s of
                   None \<Rightarrow> defaultSelector cselector (sname s)
                 | Some x \<Rightarrow> if x = [] then defaultSelector cselector (sname s) else x);
          cls = classNameOf sel;
          b = \<lparr> name = sname s, selector = sel, className = cls, nodes = [],
                handlers = shandlers s,
                template = map_option (\<lambda>t args. tagged cls (t args)) (stemplate s),
                startup = sstartup s, owner = ccontainer \<rparr>
      in fst (resolveNodes d b))"

section \<open>Component\<close>

text \<open>
  A native listener on the container: the bound \<^verbatim>\<open>Component.handler\<close>
  (\<open>Delegate\<close>) or the anonymous coordinate recorder added for touch events
  (\<open>TouchRecorder\<close>). Every \<^verbatim>\<open>addEventListener\<close> call of the library passes a fresh
  function, so each call adds a listener.
\<close>

datatype listener_kind = Delegate | TouchRecorder

record listener =
  ltype :: string
  lkind :: listener_kind
  capture :: bool

text \<open>
  The component object. \<open>cid\<close> is the object's identity (components are compared by
  reference). \<open>elements\<close> is the insertion-ordered \<^verbatim>\<open>Map\<close>. \<open>touches\<close> says whether
  \<^verbatim>\<open>this.touches\<close> exists. \<open>listeners\<close> are the listeners this component has added to
  its container, in the order of the calls.
\<close>

record component =
  cid :: nat
  cname :: string
  container :: node
  cselector :: string
  elements :: "(string \<times> binding) list"
  registeredHandlers :: "string \<Rightarrow> listener option"
  touches :: bool
  listeners :: "listener list"

text \<open>\<^verbatim>\<open>init(name, node, selector)\<close>: lines 158 to 164.\<close>

definition Component_init :: "nat \<Rightarrow> string \<Rightarrow> node \<Rightarrow> string \<Rightarrow> component" where
  "Component_init ident nm n sel =
     \<lparr> cid = ident, cname = nm, container = n, cselector = sel, elements = [],
       registeredHandlers = Map.empty, touches = False, listeners = [] \<rparr>"

definition capturingTypes :: "string list" where
  "capturingTypes = [''blur'', ''focus'', ''mouseenter'', ''mouseleave'']"

text \<open>The body of the loop over the event types of one element: lines 178 to 194.\<close>

definition register :: "string \<Rightarrow> component \<Rightarrow> component" where
  "register eventType c =
     (if registeredHandlers c eventType \<noteq> None then c
      else
        let isCapturing = (eventType \<in> set capturingTypes);
            h = \<lparr> ltype = eventType, lkind = Delegate, capture = isCapturing \<rparr>;
            c1 = c\<lparr> listeners := listeners c @ [h],
                    registeredHandlers := (registeredHandlers c)(eventType \<mapsto> h) \<rparr>
        in if eventType = ''touchmove'' \<and> \<not> touches c1
           then c1\<lparr> touches := True,
                    listeners := listeners c1 @
                      [\<lparr> ltype = ''touchstart'', lkind = TouchRecorder, capture = False \<rparr>] \<rparr>
           else c1)"

text \<open>
  What a call of \<^verbatim>\<open>define\<close> does that the application can see, in order: an element
  stored under its name, and the startup hook of a named element called.
\<close>

datatype define_effect = Stored string | Started string

text \<open>The loop over \<^verbatim>\<open>this.elements.values()\<close>: lines 198 to 200.\<close>

definition startups :: "binding list \<Rightarrow> define_effect list" where
  "startups bs = map (\<lambda>b. Started (name b)) (filter (\<lambda>b. nodes b \<noteq> [] \<and> startup b \<noteq> None) bs)"

text \<open>
  \<^verbatim>\<open>define(...elements)\<close>: lines 169 to 202. The startup loop stands inside the loop
  over the arguments, as in the source.
\<close>

fun define_loop ::
  "(string option \<Rightarrow> string \<Rightarrow> string) \<Rightarrow> dom \<Rightarrow> element_spec list \<Rightarrow> component \<Rightarrow>
   define_effect list \<Rightarrow> component \<times> define_effect list" where
  "define_loop tagged d [] c log = (c, log)"
| "define_loop tagged d (s # ss) c log =
     (let el = Element_init tagged d (container c) (cselector c) s;
          c1 = c\<lparr> elements := AList.update (name el) el (elements c) \<rparr>;
          c2 = fold register (map fst (handlers el)) c1
      in define_loop tagged d ss c2
           (log @ [Stored (name el)] @ startups (map snd (elements c2))))"

definition Component_define ::
  "(string option \<Rightarrow> string \<Rightarrow> string) \<Rightarrow> dom \<Rightarrow> element_spec list \<Rightarrow> component \<Rightarrow>
   component \<times> define_effect list" where
  "Component_define tagged d specs c = define_loop tagged d specs c []"

text \<open>\<^verbatim>\<open>element(name)\<close>: lines 217 to 219.\<close>

definition element :: "component \<Rightarrow> string \<Rightarrow> binding option" where
  "element c nm = map_of (elements c) nm"

text \<open>\<^verbatim>\<open>findElement(node)\<close>: lines 226 to 243.\<close>

fun indexOf :: "node \<Rightarrow> node list \<Rightarrow> nat option" where
  "indexOf n [] = None"
| "indexOf n (x # xs) = (if x = n then Some 0 else map_option Suc (indexOf n xs))"

fun findIn :: "binding list \<Rightarrow> node \<Rightarrow> (binding \<times> nat) option" where
  "findIn [] n = None"
| "findIn (b # bs) n = (case indexOf n (nodes b) of Some i \<Rightarrow> Some (b, i) | None \<Rightarrow> findIn bs n)"

definition findElement :: "component \<Rightarrow> node \<Rightarrow> (binding \<times> nat) option" where
  "findElement c n = findIn (map snd (elements c)) n"

subsection \<open>The delegation loop\<close>

text \<open>
  What a handler of the application does when \<^verbatim>\<open>Component.handler\<close> calls it with
  the element as receiver, the event and the matched index: it uses capabilities of the
  event, and it may change the document and the component (detach or move nodes, refresh
  node caches, define elements). The table gives, for a handler's label, the calls made
  and the document and component the handler leaves behind.
\<close>

type_synonym behaviour =
  "handler \<Rightarrow> binding \<Rightarrow> event \<Rightarrow> nat \<Rightarrow> dom \<times> component \<Rightarrow> call list \<times> dom \<times> component"

text \<open>
  One pass of the loop is recorded as a \<open>visit\<close>: the node looked up, the document and
  the component as they were at the lookup, the element name and index whose handler
  was called (if one was), and the capabilities that handler used.
\<close>

record visit =
  vnode :: node
  vdom :: dom
  vcomponent :: component
  vfired :: "(string \<times> nat) option"
  vcalls :: "call list"

text \<open>
  The state of one dispatch: the closure variable \<^verbatim>\<open>stopPropagation\<close>, whether the
  platform's \<^verbatim>\<open>stopPropagation\<close> and \<^verbatim>\<open>preventDefault\<close> have been called on the
  event, the visits so far, and the document and the component as they are now.
\<close>

record dispatch =
  stopPropagation :: bool
  nativeStopped :: bool
  defaultPrevented :: bool
  visits :: "visit list"
  wdom :: dom
  wcomponent :: component

fun apply_call :: "call \<Rightarrow> dispatch \<Rightarrow> dispatch" where
  "apply_call StopInnerPropagation st = st\<lparr> nativeStopped := True, stopPropagation := True \<rparr>"
| "apply_call StopPropagation st = st\<lparr> nativeStopped := True \<rparr>"
| "apply_call PreventDefault st = st\<lparr> defaultPrevented := True \<rparr>"

text \<open>Line 276: \<^verbatim>\<open>isOutsideRelated\<close>.\<close>

definition isOutsideRelated :: "dom \<Rightarrow> event \<Rightarrow> node \<Rightarrow> bool" where
  "isOutsideRelated d ev currentTarget =
     (case relatedTarget ev of
        None \<Rightarrow> True
      | Some r \<Rightarrow> \<not> contains d currentTarget r \<and> currentTarget \<noteq> r)"

text \<open>A pass that calls no handler records the lookup only.\<close>

definition skipped :: "node \<Rightarrow> dispatch \<Rightarrow> dispatch" where
  "skipped currentTarget st =
     st\<lparr> visits := visits st @
       [\<lparr> vnode = currentTarget, vdom = wdom st, vcomponent = wcomponent st,
          vfired = None, vcalls = [] \<rparr>] \<rparr>"

text \<open>
  Lines 273 to 282: the lookup and the call of the handler, on the document and the
  component as they are at this pass. The handler leaves its document and component
  behind for the passes that follow.
\<close>

definition fire :: "behaviour \<Rightarrow> event \<Rightarrow> node \<Rightarrow> dispatch \<Rightarrow> dispatch" where
  "fire run ev currentTarget st =
     (case findElement (wcomponent st) currentTarget of
        None \<Rightarrow> skipped currentTarget st
      | Some (el, index) \<Rightarrow>
          (case map_of (handlers el) (etype ev) of
             None \<Rightarrow> skipped currentTarget st
           | Some eventHandler \<Rightarrow>
               if isOutsideRelated (wdom st) ev currentTarget
               then (case run eventHandler el ev index (wdom st, wcomponent st) of
                       (cs, d', c') \<Rightarrow>
                         fold apply_call cs
                           (st\<lparr> visits := visits st @
                                 [\<lparr> vnode = currentTarget, vdom = wdom st,
                                    vcomponent = wcomponent st,
                                    vfired = Some (name el, index), vcalls = cs \<rparr>],
                               wdom := d', wcomponent := c' \<rparr>))
               else skipped currentTarget st))"

text \<open>
  The loop of lines 272 to 290, with fuel. Line 285 reads \<^verbatim>\<open>this.container\<close> and
  line 288 reads \<^verbatim>\<open>currentTarget.parentNode\<close> after the handler has run, so both are
  read from what the handler left behind. When \<^verbatim>\<open>currentTarget\<close> has become
  \<^verbatim>\<open>null\<close> the pass calls no handler and raises a TypeError (at \<^verbatim>\<open>.contains\<close> or at
  \<^verbatim>\<open>.parentNode\<close>).
\<close>

datatype status = Returned | Raised error | OutOfFuel

primrec handler_loop ::
  "nat \<Rightarrow> behaviour \<Rightarrow> event \<Rightarrow> node option \<Rightarrow> dispatch \<Rightarrow> status \<times> dispatch" where
  "handler_loop 0 run ev cur st =
     (if stopPropagation st then (Returned, st) else (OutOfFuel, st))"
| "handler_loop (Suc k) run ev cur st =
     (if stopPropagation st then (Returned, st)
      else case cur of
        None \<Rightarrow> (Raised TypeError, st)
      | Some currentTarget \<Rightarrow>
          (let st1 = fire run ev currentTarget st in
           if currentTarget = container (wcomponent st1)
           then handler_loop k run ev cur (st1\<lparr> stopPropagation := True \<rparr>)
           else handler_loop k run ev (parentNode (wdom st1) currentTarget) st1))"

text \<open>
  \<^verbatim>\<open>handler(ev)\<close>: lines 248 to 291. For a \<^verbatim>\<open>touchmove\<close> event lines 261 to 270 read
  \<^verbatim>\<open>this.touches.x\<close> and \<^verbatim>\<open>ev.touches[0].clientX\<close> before the loop: a TypeError is
  raised there when \<^verbatim>\<open>this.touches\<close> does not exist or the event holds no touch
  point. The three flags these lines add to the event are floating-point comparisons
  read by handlers only, and are not part of the embedding.
\<close>

definition handler :: "nat \<Rightarrow> behaviour \<Rightarrow> dom \<Rightarrow> component \<Rightarrow> event \<Rightarrow> status \<times> dispatch" where
  "handler fuel run d c ev =
     (let st = \<lparr> stopPropagation = False, nativeStopped = False, defaultPrevented = False,
                 visits = [], wdom = d, wcomponent = c \<rparr>
      in if etype ev = ''touchmove'' \<and> (\<not> touches c \<or> etouches ev = 0)
         then (Raised TypeError, st)
         else handler_loop fuel run ev (Some (target ev)) st)"

section \<open>Hub\<close>

text \<open>
  An observer record. \<open>ocomponent\<close> is a reference to a component: the Hub reads
  through it the identity and the container, which never change after \<^verbatim>\<open>init\<close>. The
  callback is held under a label.
\<close>

record observer =
  ocomponent :: component
  oevent :: string
  ohandler :: string

text \<open>
  The Hub. \<open>observers\<close> is the content of the array \<^verbatim>\<open>this.observers\<close> refers to now.
  \<^verbatim>\<open>subscribe\<close> and \<^verbatim>\<open>delete\<close> change that array in place; \<^verbatim>\<open>unsubscribe\<close> assigns a
  new array and leaves the old one as it is. A loop over the old array goes on reading
  the old array, so array objects have an identity: \<open>epoch\<close> is the identity of the
  current array, and \<open>retired\<close> gives the content of the arrays \<^verbatim>\<open>this.observers\<close> no
  longer refers to. \<open>fresh\<close> is the identity of the next component object.
\<close>

record hub =
  components :: "component list"
  observers :: "observer list"
  fresh :: nat
  epoch :: nat
  retired :: "nat \<Rightarrow> observer list"

definition Hub_initial :: hub where
  "Hub_initial = \<lparr> components = [], observers = [], fresh = 0, epoch = 0, retired = (\<lambda>a. []) \<rparr>"

text \<open>The content of the array object with identity \<open>a\<close>.\<close>

definition arrayOf :: "hub \<Rightarrow> nat \<Rightarrow> observer list" where
  "arrayOf h a = (if a = epoch h then observers h else retired h a)"

datatype jsvalue = ComponentRef nat | Str string | Num int



text \<open>\<^verbatim>\<open>create(name, node, selector)\<close>: lines 324 to 331.\<close>

definition Hub_create :: "hub \<Rightarrow> string \<Rightarrow> node \<Rightarrow> string \<Rightarrow> component \<times> hub" where
  "Hub_create h nm n sel =
     (let c = Component_init (fresh h) nm n sel
      in (c, h\<lparr> components := components h @ [c], fresh := Suc (fresh h) \<rparr>))"

text \<open>
  \<^verbatim>\<open>xs.some((x, index) => { if (p(x)) { xs.splice(index, 1); return true; } })\<close>, the
  shape of both loops of \<^verbatim>\<open>delete\<close>.
\<close>

fun spliceFirst :: "('a \<Rightarrow> bool) \<Rightarrow> 'a list \<Rightarrow> 'a list" where
  "spliceFirst p [] = []"
| "spliceFirst p (x # xs) = (if p x then xs else x # spliceFirst p xs)"

text \<open>\<^verbatim>\<open>delete(node)\<close>: lines 336 to 352. Both arrays are changed in place.\<close>

definition Hub_delete :: "hub \<Rightarrow> node \<Rightarrow> hub" where
  "Hub_delete h n =
     h\<lparr> components := spliceFirst (\<lambda>c. container c = n) (components h),
        observers := spliceFirst (\<lambda>ob. container (ocomponent ob) = n) (observers h) \<rparr>"

text \<open>\<^verbatim>\<open>subscribe(component, event, handler)\<close>: lines 359 to 361, a push in place.\<close>

definition subscribe :: "hub \<Rightarrow> component \<Rightarrow> string \<Rightarrow> string \<Rightarrow> hub" where
  "subscribe h c ev cb =
     h\<lparr> observers := observers h @ [\<lparr> ocomponent = c, oevent = ev, ohandler = cb \<rparr>] \<rparr>"






text \<open>\<^verbatim>\<open>listen(...events)\<close>: lines 296 to 302.\<close>

definition listen :: "hub \<Rightarrow> component \<Rightarrow> (string \<times> string) list \<Rightarrow> hub" where
  "listen h c evs = fold (\<lambda>(ev, cb) h'. subscribe h' c ev cb) evs h"

section \<open>Notions used in the statements\<close>



text \<open>
  An invariant of the loop: a handler that used the inner stop is the handler of the
  last visit, it has set the closure variable, and the platform's stop has been called.
\<close>

definition inner_stop_last :: "dispatch \<Rightarrow> bool" where
  "inner_stop_last st =
     ((\<not> stopPropagation st \<longrightarrow> (\<forall>v\<in>set (visits st). StopInnerPropagation \<notin> set (vcalls v))) \<and>
      ((\<exists>v\<in>set (visits st). StopInnerPropagation \<in> set (vcalls v)) \<longrightarrow> nativeStopped st) \<and>
      (\<forall>v\<in>set (butlast (visits st)). StopInnerPropagation \<notin> set (vcalls v)))"



text \<open>
  An invariant of \<^verbatim>\<open>define\<close>: per event type, one delegating listener if the type
  is registered and none otherwise; one coordinate recorder if \<^verbatim>\<open>this.touches\<close>
  exists and none otherwise; a recorder listens to \<^verbatim>\<open>touchstart\<close>.
\<close>

definition listener_inv :: "component \<Rightarrow> bool" where
  "listener_inv c =
     ((\<forall>t. length (filter (\<lambda>l. lkind l = Delegate \<and> ltype l = t) (listeners c)) =
            (if registeredHandlers c t = None then 0 else 1)) \<and>
      length (filter (\<lambda>l. lkind l = TouchRecorder) (listeners c)) = (if touches c then 1 else 0) \<and>
      (\<forall>l\<in>set (listeners c). lkind l = TouchRecorder \<longrightarrow> ltype l = ''touchstart''))"

text \<open>
  A sequence of \<^verbatim>\<open>define\<close> calls on one component, each with its arguments and the
  document at the time of the call.
\<close>

fun define_calls ::
  "(string option \<Rightarrow> string \<Rightarrow> string) \<Rightarrow> (dom \<times> element_spec list) list \<Rightarrow> component \<Rightarrow>
   component" where
  "define_calls tagged [] c = c"
| "define_calls tagged ((d, specs) # rest) c =
     define_calls tagged rest (fst (Component_define tagged d specs c))"









section \<open>Example inputs\<close>

text \<open>
  A page after the one of \<^verbatim>\<open>test/test-component.js\<close>: the root of the document (0),
  the component's section (1) with a header (2), a content block (3) holding two links
  (4, 5), and a footer (6) holding a button (7); beside it the section of a second
  component (8).
\<close>

definition page :: dom where
  "page = \<lparr> dnodes = [0, 1, 2, 3, 4, 5, 6, 7, 8],
            parentNode = map_of [(1, 0), (2, 1), (3, 1), (4, 3), (5, 3), (6, 1), (7, 6), (8, 0)],
            matches = (\<lambda>n sel. (n, sel) \<in> set
              [(1, ''.js-component''), (2, ''.js-component__header''),
               (3, ''.js-component__content''), (4, ''.js-component__link''),
               (5, ''.js-component__link''), (6, ''.js-component__footer''),
               (7, ''.js-component__button''), (8, ''.js-other-component'')]) \<rparr>"

definition plainTag :: "string option \<Rightarrow> string \<Rightarrow> string" where
  "plainTag cls markup = markup"

definition widget0 :: component where
  "widget0 = Component_init 0 ''Component'' 1 ''.js-component''"

definition selfSpec :: element_spec where
  "selfSpec = \<lparr> sname = ''self'', sselector = None, shandlers = [(''click'', ''selfClick'')],
                stemplate = None, sstartup = Some ''init'' \<rparr>"

definition footerSpec :: element_spec where
  "footerSpec = \<lparr> sname = ''footer'', sselector = None,
                  shandlers = [(''click'', ''footerClick''), (''mouseover'', ''footerOver'')],
                  stemplate = None, sstartup = None \<rparr>"

definition buttonSpec :: element_spec where
  "buttonSpec = \<lparr> sname = ''button'', sselector = None,
                  shandlers = [(''click'', ''buttonClick''), (''mouseover'', ''buttonOver'')],
                  stemplate = None, sstartup = None \<rparr>"

definition touchSpec :: element_spec where
  "touchSpec = \<lparr> sname = ''self'', sselector = None,
                 shandlers = [(''touchmove'', ''selfMove''), (''touchstart'', ''selfStart'')],
                 stemplate = None, sstartup = None \<rparr>"

definition widget :: component where
  "widget = fst (Component_define plainTag page [selfSpec, footerSpec, buttonSpec] widget0)"


text \<open>
  The handlers of the repository's test: the click handler of the button uses the
  inner stop, the others use no capability; all leave the document and the component
  as they are.
\<close>

definition appRun :: behaviour where
  "appRun l el ev i w = (if l = ''buttonClick'' then [StopInnerPropagation] else [], w)"



definition click7 :: event where
  "click7 = \<lparr> etype = ''click'', target = 7, relatedTarget = None, etouches = 0 \<rparr>"



text \<open>
  A static element bound to both links, a dynamic one (it has a template) whose cache
  holds the first link only, and a dynamic element \<open>self\<close>.
\<close>

definition link :: binding where
  "link = \<lparr> name = ''link'', selector = ''.js-component__link'',
            className = Some ''js-component__link'', nodes = [4, 5], handlers = [],
            template = None, startup = None, owner = 1 \<rparr>"

definition dynLink :: binding where
  "dynLink = link\<lparr> nodes := [4], template := Some (\<lambda>args. ''<a></a>'') \<rparr>"

definition dynSelf :: binding where
  "dynSelf = \<lparr> name = ''self'', selector = ''.js-component'',
               className = Some ''js-component'', nodes = [1], handlers = [],
               template = Some (\<lambda>args. ''<section></section>''), startup = None, owner = 1 \<rparr>"

text \<open>
  Two components \<open>senderA\<close> and \<open>receiverB\<close>; \<open>receiverB\<close> subscribes twice and \<open>senderA\<close>
  once.
\<close>

definition senderA :: component where
  "senderA = Component_init 0 ''A'' 1 ''.js-component''"

definition receiverB :: component where
  "receiverB = Component_init 1 ''B'' 8 ''.js-other-component''"

definition hub2 :: hub where
  "hub2 = snd (Hub_create (snd (Hub_create Hub_initial ''A'' 1 ''.js-component''))
                 ''B'' 8 ''.js-other-component'')"

definition hub3 :: hub where
  "hub3 = listen (listen hub2 receiverB [(''ping'', ''onPingB'')]) senderA
            [(''ping'', ''onPingA'')]"

definition hub4 :: hub where
  "hub4 = listen hub3 receiverB [(''pong'', ''onPongB'')]"





section \<open>The document: facts\<close>

lemma climbs_Suc: "climbs d k n a \<Longrightarrow> climbs d (Suc k) n a"
proof (induction k arbitrary: n)
  case 0
  then show ?case by simp
next
  case (Suc k)
  from Suc.prems consider "n = a" | p where "parentNode d n = Some p" "climbs d k p a"
    by (auto split: option.splits)
  then show ?case
  proof cases
    case 1
    then show ?thesis by simp
  next
    case 2
    from Suc.IH [OF 2(2)] have "climbs d (Suc k) p a" .
    with 2(1) show ?thesis by (subst climbs.simps) (simp del: climbs.simps)
  qed
qed

lemma climbs_mono: "k \<le> m \<Longrightarrow> climbs d k n a \<Longrightarrow> climbs d m n a"
  by (induction m rule: dec_induct) (auto intro: climbs_Suc simp del: climbs.simps)

lemma climbs_detached: "parentNode d n = None \<Longrightarrow> climbs d k n a = (n = a)"
  by (cases k) simp_all

lemma contains_self: "contains d a a"
  by (cases "length (dnodes d)") (simp_all add: contains_def)

lemma removeChild_fields:
  "dnodes (removeChild d n) = dnodes d"
  "matches (removeChild d n) = matches d"
  "parentNode (removeChild d n) m = (if m = n then None else parentNode d m)"
  by (simp_all add: removeChild_def)

lemma removeEach_detaches:
  "removeEach d ns = Inr d' \<Longrightarrow>
     dnodes d' = dnodes d \<and> matches d' = matches d \<and>
     (\<forall>m. parentNode d' m = (if m \<in> set ns then None else parentNode d m))"
proof (induction ns arbitrary: d)
  case Nil
  then show ?case by simp
next
  case (Cons n ns)
  from Cons.prems obtain p where
    p: "parentNode d n = Some p" "removeEach (removeChild d n) ns = Inr d'"
    by (auto split: option.splits)
  from Cons.IH [OF p(2)] show ?case by (auto simp: removeChild_fields)
qed

lemma queryAll_attached:
  assumes "n \<in> set (queryAll d sel scope)"
  shows "parentNode d n \<noteq> None \<and> contains d scope n"
proof -
  from assms have a: "n \<noteq> scope" "contains d scope n" by (auto simp: queryAll_def)
  have "parentNode d n \<noteq> None"
  proof
    assume "parentNode d n = None"
    then have "climbs d (length (dnodes d)) n scope = (n = scope)" by (rule climbs_detached)
    with a show False by (simp add: contains_def)
  qed
  with a show ?thesis by simp
qed

lemma at_index_beyond: "int (length xs) \<le> i \<Longrightarrow> at_index xs i = None"
  by (simp add: at_index_def)

section \<open>Element: the claims\<close>

text \<open>
  C9. \<^verbatim>\<open>element(name)\<close> for a name with no binding, \<^verbatim>\<open>get(index)\<close> with an index at
  or beyond the length of the node list, and \<^verbatim>\<open>render(...)\<close> on a binding without a
  template each give an absent value. None of the three has an error among its results:
  the absent value is \<open>None\<close> of an option, and \<^verbatim>\<open>render\<close> leaves the document as it
  was.
\<close>

theorem absent_lookups_give_None:
  "(nm \<notin> fst ` set (elements c) \<longrightarrow> element c nm = None) \<and>
   (int (length (snd (getAll d b))) \<le> i \<longrightarrow> snd (Element_get d b i) = None) \<and>
   (template b = None \<longrightarrow> render createNode d b args = (None, d))"
  by (auto simp: element_def map_of_eq_None_iff Element_get_def at_index_beyond render_def
      split: prod.splits)

text \<open>
  C9 at an input: the example component has no element \<open>missing\<close>, the element
  \<open>link\<close> has two nodes and none at index 2, and it has no template.
\<close>

theorem absent_lookups_witness:
  "element widget ''missing'' = None \<and> snd (Element_get page link 2) = None \<and>
   render (\<lambda>markup d. (9, d)) page link [] = (None, page)"
proof -
  have a: "''missing'' \<notin> fst ` set (elements widget)" by code_simp
  have b: "int (length (snd (getAll page link))) \<le> 2" by code_simp
  have c: "template link = None" by (simp add: link_def)
  from a b c absent_lookups_give_None [of "''missing''" widget page link 2 "\<lambda>markup d. (9, d)" "[]"]
  show ?thesis by simp
qed

text \<open>
  C10. \<^verbatim>\<open>remove(index)\<close> is not total in its index. At any index at or beyond the
  length of \<^verbatim>\<open>getAll()\<close>, \<^verbatim>\<open>get\<close> gives the absent value and \<^verbatim>\<open>remove\<close> raises a
  TypeError. \<^verbatim>\<open>remove\<close> returns normally exactly when a node exists at the index and
  has a parent.
\<close>

theorem remove_raises_where_get_is_absent:
  "(int (length (snd (getAll d b))) \<le> i \<longrightarrow>
      snd (Element_get d b i) = None \<and> Element_remove d b i = Inl TypeError) \<and>
   ((\<exists>r. Element_remove d b i = Inr r) \<longleftrightarrow>
      (\<exists>n p. snd (Element_get d b i) = Some n \<and> parentNode d n = Some p))"
  by (auto simp: Element_remove_def Element_get_def at_index_beyond Let_def
      split: prod.splits option.splits)

text \<open>
  C10 at an input: \<open>link\<close> has two nodes; \<^verbatim>\<open>remove(2)\<close> raises, \<^verbatim>\<open>remove(1)\<close> detaches
  the second link and leaves the first in the cache.
\<close>

theorem remove_raises_witness:
  "Element_remove page link 2 = Inl TypeError \<and>
   map_sum id (\<lambda>(d, b). (parentNode d 5, nodes b)) (Element_remove page link 1) = Inr (None, [4])"
proof -
  have b: "int (length (snd (getAll page link))) \<le> 2" by code_simp
  have c: "map_sum id (\<lambda>(d, b). (parentNode d 5, nodes b)) (Element_remove page link 1)
             = Inr (None, [4])"
    by code_simp
  from b c remove_raises_where_get_is_absent [of page link 2] show ?thesis by simp
qed

text \<open>
  C7, as amended. \<^verbatim>\<open>getAll()\<close> runs \<^verbatim>\<open>resolveNodes()\<close> when the cached list is
  empty or the binding has a template, and otherwise returns the cached list and leaves
  the binding as it is. Hence, when \<^verbatim>\<open>removeAll()\<close> has returned, the next \<^verbatim>\<open>getAll()\<close> resolves anew
  against the document as it is then: it gives the container for the element \<open>self\<close>
  and the query result under the container otherwise; every node it gives is at or
  under the container in that document; and for an element other than \<open>self\<close> none of
  the removed nodes is among them.
\<close>

theorem getAll_resolves_when_empty_or_dynamic:
  "((nodes b = [] \<or> template b \<noteq> None) \<longrightarrow> getAll d b = resolveNodes d b) \<and>
   (\<not> (nodes b = [] \<or> template b \<noteq> None) \<longrightarrow> getAll d b = (b, nodes b)) \<and>
   (Element_removeAll d b = Inr (d', b') \<longrightarrow>
      getAll d' b' = resolveNodes d' b' \<and>
      snd (getAll d' b') =
        (if name b = ''self'' then [owner b] else queryAll d' (selector b) (owner b)) \<and>
      (\<forall>n\<in>set (snd (getAll d' b')). contains d' (owner b) n) \<and>
      (name b \<noteq> ''self'' \<longrightarrow> set (snd (getAll d' b')) \<inter> set (nodes b) = {}))"
proof (intro conjI impI)
  assume r: "Element_removeAll d b = Inr (d', b')"
  then obtain e where e: "removeEach d (nodes b) = Inr e" "d' = e" "b' = b\<lparr>nodes := []\<rparr>"
    by (auto simp: Element_removeAll_def split: sum.splits)
  then have det: "\<forall>m. parentNode d' m = (if m \<in> set (nodes b) then None else parentNode d m)"
    using removeEach_detaches [of d "nodes b" d'] by simp
  show "getAll d' b' = resolveNodes d' b'" using e by (simp add: getAll_def)
  show s: "snd (getAll d' b') =
        (if name b = ''self'' then [owner b] else queryAll d' (selector b) (owner b))"
    using e by (simp add: getAll_def resolveNodes_def Let_def)
  show "\<forall>n\<in>set (snd (getAll d' b')). contains d' (owner b) n"
    unfolding s by (auto simp: contains_self dest: queryAll_attached)
  show "set (snd (getAll d' b')) \<inter> set (nodes b) = {}" if "name b \<noteq> ''self''"
    unfolding s using that det by (auto dest: queryAll_attached)
qed (simp_all add: getAll_def)

text \<open>
  C7 at an input: the dynamic element \<open>dynLink\<close> has the first link in its cache while
  the page holds two. \<^verbatim>\<open>removeAll()\<close> detaches the first; the next \<^verbatim>\<open>getAll()\<close> gives
  the second, which is in the page, and not the removed one.
\<close>

theorem getAll_after_removeAll_witness:
  "Element_removeAll page dynLink = Inr (removeChild page 4, dynLink\<lparr>nodes := []\<rparr>) \<and>
   snd (getAll (removeChild page 4) (dynLink\<lparr>nodes := []\<rparr>)) = [5] \<and>
   set (snd (getAll (removeChild page 4) (dynLink\<lparr>nodes := []\<rparr>))) \<inter> set (nodes dynLink) = {}"
proof -
  have r: "Element_removeAll page dynLink = Inr (removeChild page 4, dynLink\<lparr>nodes := []\<rparr>)"
    by (simp add: Element_removeAll_def dynLink_def link_def page_def)
  have q: "queryAll (removeChild page 4) (selector dynLink) (owner dynLink) = [5]"
    by code_simp
  have n: "name dynLink \<noteq> ''self''" by (simp add: dynLink_def link_def)
  let ?d = "removeChild page 4" and ?b = "dynLink\<lparr>nodes := []\<rparr>"
  from r getAll_resolves_when_empty_or_dynamic [of dynLink page ?d ?b]
  have "snd (getAll ?d ?b) =
          (if name dynLink = ''self'' then [owner dynLink]
           else queryAll ?d (selector dynLink) (owner dynLink))"
    and "name dynLink \<noteq> ''self'' \<longrightarrow> set (snd (getAll ?d ?b)) \<inter> set (nodes dynLink) = {}"
    by blast+
  with q n have "snd (getAll ?d ?b) = [5]"
    and "set (snd (getAll ?d ?b)) \<inter> set (nodes dynLink) = {}"
    by simp_all
  with r show ?thesis by blast
qed

text \<open>
  C7 as the claim states it fails for the element \<open>self\<close> with a template.
  \<^verbatim>\<open>removeAll()\<close> detaches the container from its parent and empties the cache; the
  next \<^verbatim>\<open>getAll()\<close> resolves anew, and \<^verbatim>\<open>resolveNodes()\<close> gives the container for
  \<open>self\<close> without a query: the list of before the removal, whose node is no longer in
  the document.
\<close>

theorem getAll_of_self_gives_the_removed_container:
  "name dynSelf = ''self'' \<and> nodes dynSelf = [1] \<and>
   map_option (\<lambda>t. t []) (template dynSelf) = Some ''<section></section>'' \<and>
   parentNode page 1 = Some 0 \<and>
   map_sum id (\<lambda>(d', b'). (nodes b', snd (getAll d' b'), parentNode d' 1))
     (Element_removeAll page dynSelf) = Inr ([], [1], None)"
  by code_simp

section \<open>The delegation loop: facts\<close>


lemma apply_call_frame:
  "visits (apply_call a st) = visits st"
  "wdom (apply_call a st) = wdom st"
  "wcomponent (apply_call a st) = wcomponent st"
  by (cases a; simp)+

lemma apply_call_stop:
  "stopPropagation (apply_call a st) = (stopPropagation st \<or> a = StopInnerPropagation)"
  by (cases a) simp_all

lemma apply_call_native:
  "nativeStopped (apply_call a st) =
     (nativeStopped st \<or> a = StopInnerPropagation \<or> a = StopPropagation)"
  by (cases a) simp_all

lemma fold_apply_call_frame:
  "visits (fold apply_call cs st) = visits st"
  "wdom (fold apply_call cs st) = wdom st"
  "wcomponent (fold apply_call cs st) = wcomponent st"
  by (induction cs arbitrary: st; simp add: apply_call_frame)+

lemma fold_apply_call_stop:
  "stopPropagation (fold apply_call cs st) =
     (stopPropagation st \<or> StopInnerPropagation \<in> set cs)"
  by (induction cs arbitrary: st) (auto simp: apply_call_stop)

lemma fold_apply_call_native:
  "nativeStopped (fold apply_call cs st) =
     (nativeStopped st \<or> StopInnerPropagation \<in> set cs \<or> StopPropagation \<in> set cs)"
  by (induction cs arbitrary: st) (auto simp: apply_call_native)

text \<open>One pass either skips the handler or calls it; both record one visit.\<close>

lemma fire_cases:
  obtains (skip)
    "fire run ev n st = skipped n st"
    "findElement (wcomponent st) n = None \<or>
     (\<exists>el i. findElement (wcomponent st) n = Some (el, i) \<and>
        (map_of (handlers el) (etype ev) = None \<or> \<not> isOutsideRelated (wdom st) ev n))"
  | (call) el i h cs d' c' where
    "findElement (wcomponent st) n = Some (el, i)"
    "map_of (handlers el) (etype ev) = Some h"
    "isOutsideRelated (wdom st) ev n"
    "run h el ev i (wdom st, wcomponent st) = (cs, d', c')"
    "fire run ev n st = fold apply_call cs
       (st\<lparr>visits := visits st @
            [\<lparr>vnode = n, vdom = wdom st, vcomponent = wcomponent st,
              vfired = Some (name el, i), vcalls = cs\<rparr>],
          wdom := d', wcomponent := c'\<rparr>)"
proof (cases "findElement (wcomponent st) n")
  case None
  then show ?thesis using skip by (simp add: fire_def)
next
  case (Some found)
  obtain el i where found: "found = (el, i)" by (cases found)
  show ?thesis
  proof (cases "map_of (handlers el) (etype ev)")
    case None
    with Some found show ?thesis using skip by (simp add: fire_def)
  next
    case h: (Some h)
    show ?thesis
    proof (cases "isOutsideRelated (wdom st) ev n")
      case True
      obtain cs d' c' where r: "run h el ev i (wdom st, wcomponent st) = (cs, d', c')"
        by (cases "run h el ev i (wdom st, wcomponent st)") auto
      with True Some found h show ?thesis
        using call [of el i h cs d' c'] by (simp add: fire_def)
    next
      case False
      with Some found h show ?thesis using skip by (simp add: fire_def)
    qed
  qed
qed


lemma loop_stopped: "stopPropagation st \<Longrightarrow> handler_loop k run ev cur st = (Returned, st)"
  by (cases k) auto

text \<open>
  An invariant of the visits that a pass keeps is kept by the loop: the loop only adds
  the visits of its passes.
\<close>

lemma loop_visits:
  assumes pass: "\<And>n st. P st \<Longrightarrow> \<not> stopPropagation st \<Longrightarrow> P (fire run ev n st)"
    and flag: "\<And>st. P st \<Longrightarrow> P (st\<lparr>stopPropagation := True\<rparr>)"
  shows "P st \<Longrightarrow> P (snd (handler_loop k run ev cur st))"
proof (induction k arbitrary: cur st)
  case 0
  then show ?case by simp
next
  case (Suc k)
  show ?case
  proof (cases "stopPropagation st")
    case True
    with Suc.prems show ?thesis by simp
  next
    case False
    show ?thesis
    proof (cases cur)
      case None
      with False Suc.prems show ?thesis by simp
    next
      case (Some n)
      have inv: "P (fire run ev n st)" using pass [OF Suc.prems False] .
      show ?thesis
      proof (cases "n = container (wcomponent (fire run ev n st))")
        case True
        with False Some flag [OF inv] show ?thesis by (simp add: loop_stopped Let_def)
      next
        case ne: False
        from Suc.IH [OF inv] False Some ne show ?thesis by (simp add: Let_def)
      qed
    qed
  qed
qed




lemma fire_inner_stop:
  assumes "inner_stop_last st" "\<not> stopPropagation st"
  shows "inner_stop_last (fire run ev n st)"
proof (cases rule: fire_cases [of run ev n st])
  case skip
  with assms show ?thesis by (simp add: inner_stop_last_def skipped_def)
next
  case (call el i h cs d' c')
  with assms show ?thesis
    by (simp add: inner_stop_last_def fold_apply_call_frame fold_apply_call_stop
        fold_apply_call_native)
qed

lemma loop_inner_stop:
  assumes "inner_stop_last st"
  shows "inner_stop_last (snd (handler_loop k run ev cur st))"
proof (rule loop_visits [where P = inner_stop_last])
  fix n and st :: dispatch
  assume "inner_stop_last st" "\<not> stopPropagation st"
  then show "inner_stop_last (fire run ev n st)" by (rule fire_inner_stop)
qed (use assms in \<open>simp_all add: inner_stop_last_def\<close>)



section \<open>The delegation loop: the claims\<close>




text \<open>
  C4. If a handler called during a dispatch uses the inner stop
  (\<^verbatim>\<open>stopInnerPropagation\<close>), its pass is the last pass of the loop: no later node
  is looked up, so no handler of a binding matched further up is called; and the
  platform's \<^verbatim>\<open>stopPropagation\<close> has been called on the event. This holds whatever
  the handlers do to the document and the component.
\<close>

theorem inner_stop_ends_the_walk:
  "visits (snd (handler fuel run d c ev)) = pre @ v # post \<longrightarrow>
   StopInnerPropagation \<in> set (vcalls v) \<longrightarrow>
     post = [] \<and> (\<forall>w\<in>set post. vfired w = None) \<and>
     nativeStopped (snd (handler fuel run d c ev))"
proof (intro impI)
  let ?st = "snd (handler fuel run d c ev)"
  let ?init = "\<lparr>stopPropagation = False, nativeStopped = False, defaultPrevented = False,
               visits = [], wdom = d, wcomponent = c\<rparr>"
  assume vis: "visits ?st = pre @ v # post" and stop: "StopInnerPropagation \<in> set (vcalls v)"
  have "inner_stop_last (snd (handler_loop fuel run ev (Some (target ev)) ?init))"
    by (rule loop_inner_stop) (simp add: inner_stop_last_def)
  moreover have "inner_stop_last ?init" by (simp add: inner_stop_last_def)
  ultimately have "inner_stop_last ?st" by (simp add: handler_def Let_def)
  then have last: "\<forall>w\<in>set (butlast (visits ?st)). StopInnerPropagation \<notin> set (vcalls w)"
    and native: "(\<exists>w\<in>set (visits ?st). StopInnerPropagation \<in> set (vcalls w)) \<longrightarrow> nativeStopped ?st"
    by (simp_all add: inner_stop_last_def)
  have "post = []"
  proof (rule ccontr)
    assume "post \<noteq> []"
    then have "v \<in> set (butlast (visits ?st))" using vis by (simp add: butlast_append)
    with last stop show False by blast
  qed
  moreover have "nativeStopped ?st" using native vis stop by auto
  ultimately show "post = [] \<and> (\<forall>w\<in>set post. vfired w = None) \<and> nativeStopped ?st" by simp
qed

text \<open>
  C4 at an input, after the repository's test of propagation: a click on the button,
  whose handler uses the inner stop. The footer around the button and the component
  itself have click handlers; neither is visited, and the platform's stop is called.
\<close>

theorem inner_stop_witness:
  "map (\<lambda>v. (vnode v, vfired v, vcalls v)) (visits (snd (handler 10 appRun page widget click7))) =
     [(7, Some (''button'', 0), [StopInnerPropagation])] \<and>
   nativeStopped (snd (handler 10 appRun page widget click7))"
proof -
  have a: "map (\<lambda>v. (vnode v, vfired v, vcalls v))
      (visits (snd (handler 10 appRun page widget click7))) =
     [(7, Some (''button'', 0), [StopInnerPropagation])]"
    by code_simp
  then obtain v where v: "visits (snd (handler 10 appRun page widget click7)) = [] @ v # []"
    "vcalls v = [StopInnerPropagation]"
    by auto
  with inner_stop_ends_the_walk [of 10 appRun page widget click7 "[]" v "[]"]
  have "nativeStopped (snd (handler 10 appRun page widget click7))" by simp
  with a show ?thesis by simp
qed




section \<open>define: the claims\<close>

text \<open>
  C2, the code at an input. \<^verbatim>\<open>define\<close> is called once with two specs, \<open>self\<close> (with a
  startup hook) and \<open>footer\<close>. The startup hook of \<open>self\<close> is called twice in the one
  call, the first time before \<open>footer\<close> has been stored.
\<close>

theorem define_calls_startup_after_each_spec:
  "snd (Component_define plainTag page [selfSpec, footerSpec] widget0) =
     [Stored ''self'', Started ''self'', Stored ''footer'', Started ''self'']"
  by code_simp

lemma register_inv: "listener_inv c \<Longrightarrow> listener_inv (register t c)"
  by (auto simp: listener_inv_def register_def Let_def)

lemma fold_register_inv: "listener_inv c \<Longrightarrow> listener_inv (fold register ts c)"
  by (induction ts arbitrary: c) (simp_all add: register_inv)

lemma elements_update_inv: "listener_inv (c\<lparr>elements := es\<rparr>) = listener_inv c"
  by (simp add: listener_inv_def)

lemma define_loop_inv: "listener_inv c \<Longrightarrow> listener_inv (fst (define_loop tg d ss c log))"
  by (induction ss arbitrary: c log) (simp_all add: Let_def fold_register_inv elements_update_inv)

lemma define_calls_inv: "listener_inv c \<Longrightarrow> listener_inv (define_calls tg calls c)"
  by (induction calls arbitrary: c) (auto simp: Component_define_def define_loop_inv)

lemma init_inv: "listener_inv (Component_init i nm n sel)"
  by (simp add: listener_inv_def Component_init_def)

lemma filter_split_kind:
  "length (filter (\<lambda>l. ltype l = t) ls) =
     length (filter (\<lambda>l. lkind l = Delegate \<and> ltype l = t) ls) +
     length (filter (\<lambda>l. lkind l = TouchRecorder \<and> ltype l = t) ls)"
proof (induction ls)
  case Nil
  then show ?case by simp
next
  case (Cons l ls)
  then show ?case by (cases "lkind l") simp_all
qed

lemma filter_conj_le: "length (filter (\<lambda>x. P x \<and> Q x) xs) \<le> length (filter P xs)"
  by (induction xs) auto

text \<open>
  C3, as amended. After any sequence of \<^verbatim>\<open>define\<close> calls on a new component, the
  container has at most one delegating listener (the bound \<^verbatim>\<open>Component.handler\<close>)
  per event type, however many bindings declare a handler for the type, and at most
  one coordinate recorder, which listens to \<^verbatim>\<open>touchstart\<close>. So it has at most one
  listener for every type but \<^verbatim>\<open>touchstart\<close>, and at most two for \<^verbatim>\<open>touchstart\<close>.
\<close>

theorem one_delegate_per_event_type:
  "length (filter (\<lambda>l. lkind l = Delegate \<and> ltype l = t)
       (listeners (define_calls tg calls (Component_init i nm n sel)))) \<le> 1 \<and>
   length (filter (\<lambda>l. lkind l = TouchRecorder)
       (listeners (define_calls tg calls (Component_init i nm n sel)))) \<le> 1 \<and>
   length (filter (\<lambda>l. ltype l = t)
       (listeners (define_calls tg calls (Component_init i nm n sel))))
     \<le> (if t = ''touchstart'' then 2 else 1)"
proof -
  let ?c = "define_calls tg calls (Component_init i nm n sel)"
  have inv: "listener_inv ?c" by (simp add: define_calls_inv init_inv)
  have a: "length (filter (\<lambda>l. lkind l = Delegate \<and> ltype l = t) (listeners ?c)) \<le> 1"
    using inv by (simp add: listener_inv_def)
  have b: "length (filter (\<lambda>l. lkind l = TouchRecorder) (listeners ?c)) \<le> 1"
    using inv by (simp add: listener_inv_def)
  have c: "length (filter (\<lambda>l. lkind l = TouchRecorder \<and> ltype l = t) (listeners ?c)) \<le> 1"
    using b filter_conj_le [of "\<lambda>l. lkind l = TouchRecorder" "\<lambda>l. ltype l = t" "listeners ?c"]
    by simp
  have d: "filter (\<lambda>l. lkind l = TouchRecorder \<and> ltype l = t) (listeners ?c) = []"
    if "t \<noteq> ''touchstart''"
    using inv that by (auto simp: listener_inv_def filter_empty_conv)
  show ?thesis
    using a b c d filter_split_kind [of t "listeners ?c"] by auto
qed

text \<open>
  C3 at an input: two \<^verbatim>\<open>define\<close> calls in which three bindings declare a click
  handler and two a mouseover handler. The container gets one listener for each of
  the two types.
\<close>

theorem one_delegate_witness:
  "length (filter (\<lambda>l. ltype l = ''click'')
       (listeners (define_calls plainTag [(page, [selfSpec, footerSpec]), (page, [buttonSpec])]
          widget0))) \<le> 1 \<and>
   map ltype (listeners (define_calls plainTag
       [(page, [selfSpec, footerSpec]), (page, [buttonSpec])] widget0)) =
     [''click'', ''mouseover'']"
proof -
  have "map ltype (listeners (define_calls plainTag
       [(page, [selfSpec, footerSpec]), (page, [buttonSpec])] widget0)) =
     [''click'', ''mouseover'']"
    by code_simp
  with one_delegate_per_event_type
    [of "''click''" plainTag "[(page, [selfSpec, footerSpec]), (page, [buttonSpec])]"
      0 "''Component''" 1 "''.js-component''"]
  show ?thesis by (simp add: widget0_def)
qed

text \<open>
  C3 as the claim states it fails when one binding declares a \<^verbatim>\<open>touchmove\<close> and a
  \<^verbatim>\<open>touchstart\<close> handler: the container gets the coordinate recorder and the
  delegating listener, two listeners for \<^verbatim>\<open>touchstart\<close>.
\<close>

theorem two_touchstart_listeners:
  "map (\<lambda>l. (ltype l, lkind l))
     (listeners (define_calls plainTag [(page, [touchSpec])] widget0)) =
     [(''touchmove'', Delegate), (''touchstart'', TouchRecorder), (''touchstart'', Delegate)] \<and>
   length (filter (\<lambda>l. ltype l = ''touchstart'')
     (listeners (define_calls plainTag [(page, [touchSpec])] widget0))) = 2"
  by code_simp

section \<open>Hub: the claims\<close>



text \<open>The Hub's own \<^verbatim>\<open>subscribe\<close> and \<^verbatim>\<open>unsubscribe\<close> keep the entries of an array.\<close>

lemma subscribe_keeps:
  "n \<le> length (arrayOf g a) \<Longrightarrow>
     epoch (subscribe g c ev cb) = epoch g \<and>
     take n (arrayOf (subscribe g c ev cb) a) = take n (arrayOf g a)"
  by (auto simp: subscribe_def arrayOf_def)





lemma spliceFirst_first:
  "\<forall>x\<in>set xs. \<not> p x \<Longrightarrow> p y \<Longrightarrow> spliceFirst p (xs @ y # ys) = xs @ ys"
  by (induction xs) auto

lemma spliceFirst_none: "\<forall>x\<in>set xs. \<not> p x \<Longrightarrow> spliceFirst p xs = xs"
  by (induction xs) auto

text \<open>
  C6. \<^verbatim>\<open>Hub.delete(n)\<close> removes the first component whose container is \<open>n\<close> and the first
  observer record whose component's container is \<open>n\<close>, and nothing else: the entries
  before and after the removed one stay, in their order, also the later observer
  records of the same component; a collection without a match stays as it is.
\<close>

theorem Hub_delete_removes_first_match_only:
  "(components h = cs1 @ c # cs2 \<and> container c = n \<and> (\<forall>x\<in>set cs1. container x \<noteq> n) \<longrightarrow>
      components (Hub_delete h n) = cs1 @ cs2) \<and>
   ((\<forall>x\<in>set (components h). container x \<noteq> n) \<longrightarrow> components (Hub_delete h n) = components h) \<and>
   (observers h = os1 @ ob # os2 \<and> container (ocomponent ob) = n \<and>
      (\<forall>x\<in>set os1. container (ocomponent x) \<noteq> n) \<longrightarrow>
      observers (Hub_delete h n) = os1 @ os2) \<and>
   ((\<forall>x\<in>set (observers h). container (ocomponent x) \<noteq> n) \<longrightarrow>
      observers (Hub_delete h n) = observers h)"
  by (simp add: Hub_delete_def spliceFirst_first spliceFirst_none)

text \<open>
  C6 at an input: \<open>receiverB\<close> (container 8) has subscribed to \<open>ping\<close> and to \<open>pong\<close>,
  \<open>senderA\<close> to \<open>ping\<close>. Deleting node 8 removes \<open>receiverB\<close> and its first
  subscription; its second subscription stays.
\<close>

theorem Hub_delete_witness:
  "components (Hub_delete hub4 8) = [senderA] \<and>
   observers (Hub_delete hub4 8) =
     [\<lparr>ocomponent = senderA, oevent = ''ping'', ohandler = ''onPingA''\<rparr>,
      \<lparr>ocomponent = receiverB, oevent = ''pong'', ohandler = ''onPongB''\<rparr>]"
proof -
  have cs: "components hub4 = [senderA] @ receiverB # []"
    by (simp add: hub4_def hub3_def hub2_def listen_def subscribe_def Hub_create_def Let_def
        Hub_initial_def senderA_def receiverB_def)
  have os: "observers hub4 =
      [] @ \<lparr>ocomponent = receiverB, oevent = ''ping'', ohandler = ''onPingB''\<rparr> #
      [\<lparr>ocomponent = senderA, oevent = ''ping'', ohandler = ''onPingA''\<rparr>,
       \<lparr>ocomponent = receiverB, oevent = ''pong'', ohandler = ''onPongB''\<rparr>]"
    by (simp add: hub4_def hub3_def hub2_def listen_def subscribe_def Hub_create_def Let_def
        Hub_initial_def)
  have k: "container receiverB = 8" "container senderA \<noteq> 8"
    by (simp_all add: receiverB_def senderA_def Component_init_def)
  from cs os k
    Hub_delete_removes_first_match_only
      [of hub4 "[senderA]" receiverB "[]" 8 "[]"
        "\<lparr>ocomponent = receiverB, oevent = ''ping'', ohandler = ''onPingB''\<rparr>"
        "[\<lparr>ocomponent = senderA, oevent = ''ping'', ohandler = ''onPingA''\<rparr>,
          \<lparr>ocomponent = receiverB, oevent = ''pong'', ohandler = ''onPongB''\<rparr>]"]
  show ?thesis by simp
qed

end
